theory Spec2Isabelle
  imports Main "HOL-Library.Word"
begin

section \<open>Stack frame recovery of fcd (pass\_locals.cpp): the use graph\<close>

text \<open>
  The pass reads an LLVM function through the use lists of its values. The model keeps
  what the pass inspects and nothing else.

  An \<open>llvm::Type\<close> is identified with the text that \<open>Type::print\<close> writes for it.
\<close>

datatype Type = Type string

fun printType :: "Type \<Rightarrow> string" where
  "printType (Type name) = name"

text \<open>
  The users of a cast instruction, as \<open>getLoadStoreType\<close> tells them apart: a load
  (with the type it loads), a store (with the type of its value operand), any other
  instruction, and a user that is no instruction (\<open>dyn_cast<Instruction>\<close> gives null).
\<close>

datatype Instruction =
    LoadInst Type
  | StoreInst Type
  | OtherInstruction
  | NotAnInstruction

datatype CastOps = Trunc | ZExt | SExt | PtrToInt | IntToPtr | BitCast

record CastInst =
  castOpcode :: CastOps
  castUsers :: "Instruction list"

datatype BinaryOps = Add | Sub | Mul | UDiv | SDiv | Shl | LShr | AShr | And | Or | Xor

text \<open>
  An operand of a binary operator that uses the base value: the base value itself, a
  \<open>ConstantInt\<close> (carrying what \<open>getLimitedValue()\<close> returns, an \<open>uint64_t\<close>), or any
  other value.
\<close>

datatype Operand = Base | ConstantInt "64 word" | OtherValue

text \<open>
  A value is known by its use list, in the order \<open>users()\<close> enumerates it. A user is a
  \<open>BinaryOperator\<close> (opcode, operand 0, operand 1, and the instruction as a value of
  its own, with its own users), a \<open>CastInst\<close>, or anything else.
\<close>

datatype Value = Value (users: "User list")
and User =
    BinaryOperator BinaryOps Operand Operand Value
  | CastInstruction CastInst
  | OtherUser

section \<open>Type trees\<close>

text \<open>
  \<open>struct StackObject\<close>: a tag and a union. An \<open>Object\<close> holds the cast it was seen
  through; an \<open>Array\<close> its element type and minimum count; a \<open>StructField\<close> its offset
  from the parent, its field type and the next field of the same structure (null at the
  end of the chain). The first field of the chain stands for the structure.
\<close>

datatype StackObject =
    Object CastInst
  | Array StackObject nat
  | StructField int StackObject "StackObject option"

datatype error = AssertionFailed | InactiveUnionMember

subsection \<open>getLoadStoreType, getPointerCastTypes\<close>

fun getLoadStoreType :: "Instruction \<Rightarrow> Type option" where
  "getLoadStoreType (LoadInst t) = Some t"
| "getLoadStoreType (StoreInst t) = Some t"
| "getLoadStoreType OtherInstruction = None"
| "getLoadStoreType NotAnInstruction = None"

text \<open>
  The set of types is kept as the list of its members in order of first insertion. (The
  iteration order of a \<open>SmallPtrSet\<close> holding more than one pointer depends on the
  addresses; nothing below depends on the order of two different types.)
\<close>

fun types_insert :: "Type \<Rightarrow> Type list \<Rightarrow> Type list" where
  "types_insert t ts = (if t \<in> set ts then ts else ts @ [t])"

fun getPointerCastTypes_loop :: "Instruction list \<Rightarrow> Type list \<Rightarrow> Type list" where
  "getPointerCastTypes_loop [] types = types"
| "getPointerCastTypes_loop (user # rest) types =
     (case getLoadStoreType user of
        Some t \<Rightarrow> getPointerCastTypes_loop rest (types_insert t types)
      | None \<Rightarrow> getPointerCastTypes_loop rest types)"

definition getPointerCastTypes :: "CastInst \<Rightarrow> Type list" where
  "getPointerCastTypes inst = getPointerCastTypes_loop (castUsers inst) []"

subsection \<open>StackObject::print\<close>

text \<open>Decimal output of \<open>raw_ostream\<close> for an unsigned and for a signed integer.\<close>

fun decimal :: "nat \<Rightarrow> string" where
  "decimal n =
     (if n < 10 then [''0123456789'' ! n]
      else decimal (n div 10) @ [''0123456789'' ! (n mod 10)])"

definition signed_decimal :: "int \<Rightarrow> string" where
  "signed_decimal i = (if i < 0 then CHR ''-'' # decimal (nat (- i)) else decimal (nat i))"

text \<open>
  \<open>print\<close> writes to a stream; the model returns the text written, or the error that
  stops it: the assertion that an \<open>Object\<close> has a type, and the read of
  \<open>structFieldType\<close> in a node of the chain that is no \<open>StructField\<close>.
\<close>

fun print :: "StackObject \<Rightarrow> error + string"
and print_items :: "StackObject option \<Rightarrow> error + string" where
  "print (Object objectPointer) =
     (case getPointerCastTypes objectPointer of
        [] \<Rightarrow> Inl AssertionFailed
      | t # ts \<Rightarrow>
          Inr (''('' @ printType t @ concat (map (\<lambda>u. '', '' @ printType u) ts) @ '')''))"
| "print (Array arrayElementType arrayMinKnownCount) =
     (case print arrayElementType of
        Inl e \<Rightarrow> Inl e
      | Inr s \<Rightarrow> Inr (''['' @ decimal arrayMinKnownCount @ '' x '' @ s @ '']''))"
| "print (StructField offsetFromParent structFieldType structNextField) =
     (case print structFieldType of
        Inl e \<Rightarrow> Inl e
      | Inr s \<Rightarrow>
          (case print_items structNextField of
             Inl e \<Rightarrow> Inl e
           | Inr r \<Rightarrow> Inr (''{'' @ signed_decimal offsetFromParent @ '': '' @ s @ r @ ''}'')))"
| "print_items None = Inr []"
| "print_items (Some (StructField offsetFromParent structFieldType structNextField)) =
     (case print structFieldType of
        Inl e \<Rightarrow> Inl e
      | Inr s \<Rightarrow>
          (case print_items structNextField of
             Inl e \<Rightarrow> Inl e
           | Inr r \<Rightarrow> Inr ('', '' @ signed_decimal offsetFromParent @ '': '' @ s @ r)))"
| "print_items (Some (Object objectPointer)) = Inl InactiveUnionMember"
| "print_items (Some (Array arrayElementType arrayMinKnownCount)) = Inl InactiveUnionMember"

definition dump :: "StackObject \<Rightarrow> error + string" where
  "dump obj = (case print obj of Inl e \<Rightarrow> Inl e | Inr s \<Rightarrow> Inr (s @ [CHR 0x0A]))"

subsection \<open>simplifyTrivialStructures\<close>

text \<open>
  The function takes a pointer that may be null and returns the same pointer, the node
  updated in place. \<open>simplifyTrivialStructures\<close> is its body for a node;
  \<open>simplifyTrivialStructures_ptr\<close> adds the null case, for the next-field pointer.
\<close>

fun simplifyTrivialStructures :: "StackObject \<Rightarrow> StackObject"
and simplifyTrivialStructures_ptr :: "StackObject option \<Rightarrow> StackObject option" where
  "simplifyTrivialStructures (Object objectPointer) = Object objectPointer"
| "simplifyTrivialStructures (Array arrayElementType arrayMinKnownCount) =
     Array (simplifyTrivialStructures arrayElementType) arrayMinKnownCount"
| "simplifyTrivialStructures (StructField offsetFromParent child structNextField) =
     StructField offsetFromParent
       (case child of
          StructField childOffset grandchild None \<Rightarrow>
            if childOffset = 0 then simplifyTrivialStructures grandchild else child
        | StructField childOffset grandchild (Some next) \<Rightarrow> child
        | Object p \<Rightarrow> child
        | Array e n \<Rightarrow> child)
       (simplifyTrivialStructures_ptr structNextField)"
| "simplifyTrivialStructures_ptr None = None"
| "simplifyTrivialStructures_ptr (Some obj) = Some (simplifyTrivialStructures obj)"

section \<open>The frame type builder\<close>

subsection \<open>The offset maps\<close>

text \<open>
  \<open>std::map<int64_t, Instruction*>\<close>: the entries in ascending order of the key; the
  instruction pointer may be null. \<open>map_insert\<close> is \<open>std::map::insert\<close>, which leaves
  the map as it is when the key is already there. An instruction in the map is the value
  it defines, known by its users.
\<close>

type_synonym OffsetMap = "(int \<times> Value option) list"

fun map_insert :: "int \<Rightarrow> 'v \<Rightarrow> (int \<times> 'v) list \<Rightarrow> (int \<times> 'v) list" where
  "map_insert k v [] = [(k, v)]"
| "map_insert k v ((k', v') # m) =
     (if k < k' then (k, v) # (k', v') # m
      else if k = k' then (k', v') # m
      else (k', v') # map_insert k v m)"

subsection \<open>IdentifyLocals::analyzeObject\<close>

text \<open>
  The loop over \<open>base.users()\<close>, with the three reference parameters as accumulators.
  \<open>None\<close> is \<open>return false\<close>. The key of a constant offset is the \<open>uint64_t\<close> of
  \<open>getLimitedValue()\<close> converted to \<open>int64_t\<close>. Nothing is ever put into
  \<open>variableOffsetStrides\<close>.
\<close>

fun analyzeObject ::
  "User list \<Rightarrow> CastInst option \<Rightarrow> OffsetMap \<Rightarrow> OffsetMap
     \<Rightarrow> (CastInst option \<times> OffsetMap \<times> OffsetMap) option" where
  "analyzeObject [] castedAs constantOffsets variableOffsetStrides =
     Some (castedAs, constantOffsets, variableOffsetStrides)"
| "analyzeObject (BinaryOperator opcode operand0 operand1 binOp # rest)
       castedAs constantOffsets variableOffsetStrides =
     (if opcode = Add then
        (case (if operand0 = Base then operand1 else operand0) of
           ConstantInt constant \<Rightarrow>
             analyzeObject rest castedAs
               (map_insert (sint constant) (Some binOp) constantOffsets) variableOffsetStrides
         | Base \<Rightarrow> None
         | OtherValue \<Rightarrow> None)
      else None)"
| "analyzeObject (CastInstruction castInst # rest)
       castedAs constantOffsets variableOffsetStrides =
     (if castOpcode castInst = IntToPtr
      then analyzeObject rest (Some castInst) constantOffsets variableOffsetStrides
      else analyzeObject rest castedAs constantOffsets variableOffsetStrides)"
| "analyzeObject (OtherUser # rest) castedAs constantOffsets variableOffsetStrides =
     analyzeObject rest castedAs constantOffsets variableOffsetStrides"

subsection \<open>IdentifyLocals::readObject\<close>

text \<open>
  \<open>readObject\<close> returns the node (\<open>None\<close> for the null pointer), or the error that
  stops the program: the assertion on the signs of the first and last offset.
  \<open>readObject_loop\<close> is the loop over the map; appending each new field at \<open>lastItem\<close>
  builds the chain from the first entry to the last.

  \<open>pair.first - front\<close> subtracts two \<open>int64_t\<close> with no check, and the result goes
  into an \<open>intptr_t\<close> (64 bits): \<open>sub_int64\<close> is that subtraction as the machine does
  it, in two's complement, wrapping around where the difference does not fit.

  The recursion follows the instructions in the map, which are users of the base; the
  size of the largest of them bounds the loop.
\<close>

definition sub_int64 :: "int \<Rightarrow> int \<Rightarrow> int" where
  "sub_int64 a b = sint (word_of_int (a - b) :: 64 word)"

fun bound :: "OffsetMap \<Rightarrow> nat" where
  "bound [] = 0"
| "bound ((k, None) # m) = bound m"
| "bound ((k, Some v) # m) = max (Suc (size v)) (bound m)"

lemma bound_map_insert:
  "bound (map_insert k v m) \<le> max (case v of None \<Rightarrow> 0 | Some x \<Rightarrow> Suc (size x)) (bound m)"
  by (induction m rule: bound.induct) (auto split: option.splits)

lemma bound_analyzeObject:
  "analyzeObject us c m vs = Some (c', m', vs')
     \<Longrightarrow> bound m' \<le> max (bound m) (size_list size us)"
proof (induction us c m vs rule: analyzeObject.induct)
  case (2 opcode operand0 operand1 binOp rest castedAs constantOffsets variableOffsetStrides)
  from "2.prems" obtain c64 where
    add: "opcode = Add" and
    right: "(if operand0 = Base then operand1 else operand0) = ConstantInt c64" and
    run: "analyzeObject rest castedAs
            (map_insert (sint c64) (Some binOp) constantOffsets) variableOffsetStrides
          = Some (c', m', vs')"
    by (auto split: if_splits Operand.splits)
  have "bound m' \<le> max (bound (map_insert (sint c64) (Some binOp) constantOffsets))
                        (size_list size rest)"
    using "2.IH" [OF add right run] .
  moreover have "bound (map_insert (sint c64) (Some binOp) constantOffsets)
                   \<le> max (Suc (size binOp)) (bound constantOffsets)"
    using bound_map_insert [of "sint c64" "Some binOp" constantOffsets] by simp
  ultimately show ?case by simp
qed (auto split: if_splits)

function readObject :: "Value \<Rightarrow> error + StackObject option"
and readObject_loop ::
  "int \<Rightarrow> StackObject option \<Rightarrow> OffsetMap \<Rightarrow> error + StackObject option" where
  "readObject base =
     (case analyzeObject (users base) None [] [] of
        None \<Rightarrow> Inr None
      | Some (castedAs, constantOffsets, variableOffsetsStrides) \<Rightarrow>
          (let offset0 = (case castedAs of None \<Rightarrow> None | Some c \<Rightarrow> Some (Object c)) in
           if length variableOffsetsStrides > 0 then Inr None
           else
             (let constantOffsets' =
                    (if offset0 = None then constantOffsets
                     else map_insert 0 None constantOffsets) in
              if length constantOffsets' > 0 then
                (let front = fst (hd constantOffsets'); back = fst (last constantOffsets') in
                 if front = 0 \<or> back = 0 \<or> (front < 0) = (back < 0)
                 then readObject_loop front offset0 constantOffsets'
                 else Inl AssertionFailed)
              else Inr offset0)))"
| "readObject_loop front offset0 [] = Inr None"
| "readObject_loop front offset0 ((first, second) # rest) =
     (case (case second of None \<Rightarrow> Inr offset0 | Some inst \<Rightarrow> readObject inst) of
        Inl e \<Rightarrow> Inl e
      | Inr None \<Rightarrow> readObject_loop front offset0 rest
      | Inr (Some child) \<Rightarrow>
          (case readObject_loop front offset0 rest of
             Inl e \<Rightarrow> Inl e
           | Inr next \<Rightarrow> Inr (Some (StructField (sub_int64 first front) child next))))"
  by pat_completeness auto

termination
proof (relation "inv_image (less_than <*lex*> less_than)
    (\<lambda>x. case x of Inl base \<Rightarrow> (size base, 0 :: nat)
             | Inr (front, offset0, m) \<Rightarrow> (bound m, Suc (length m)))", goal_cases)
  case 1
  show ?case by (intro wf_inv_image wf_lex_prod wf_less_than)
next
  case (2 base r castedAs r' constantOffsets variableOffsetsStrides offset0 constantOffsets' fr bk)
  from "2" have "analyzeObject (users base) None [] []
                   = Some (castedAs, constantOffsets, variableOffsetsStrides)"
    by auto
  from bound_analyzeObject [OF this]
  have "bound constantOffsets \<le> size_list size (users base)"
    by simp
  moreover have "bound constantOffsets' \<le> bound constantOffsets"
    using "2" bound_map_insert [of 0 None constantOffsets] by (auto split: if_splits)
  ultimately show ?case
    by (cases base) simp
next
  case 3
  then show ?case by (simp add: less_max_iff_disj)
next
  case 4
  then show ?case by (auto simp: max_def split: option.splits)
next
  case 5
  then show ?case by (auto simp: max_def split: option.splits)
qed

declare readObject.simps [simp del]

subsection \<open>IdentifyLocals::runOnFunction\<close>

text \<open>
  The stack pointer argument comes from \<open>getStackPointer\<close>, which asks the metadata of
  the function; it is taken as given (\<open>None\<close> when there is none). The result is the
  text written to \<open>errs()\<close>.
\<close>

definition runOnFunction :: "string \<Rightarrow> Value option \<Rightarrow> error + string" where
  "runOnFunction name stackPointer =
     (case stackPointer of
        None \<Rightarrow> Inr []
      | Some sp \<Rightarrow>
          (case readObject sp of
             Inl e \<Rightarrow> Inl e
           | Inr None \<Rightarrow> Inr (name @ '': '' @ [CHR 0x0A])
           | Inr (Some root) \<Rightarrow>
               (case dump (simplifyTrivialStructures root) of
                  Inl e \<Rightarrow> Inl e
                | Inr s \<Rightarrow> Inr (name @ '': '' @ s))))"

section \<open>Notions used to state the properties\<close>

text \<open>
  A use that \<open>analyzeObject\<close> passes over: neither a \<open>BinaryOperator\<close> nor a cast with
  opcode \<open>IntToPtr\<close>.
\<close>

fun ignoredUse :: "User \<Rightarrow> bool" where
  "ignoredUse (BinaryOperator opcode operand0 operand1 binOp) = False"
| "ignoredUse (CastInstruction castInst) = (castOpcode castInst \<noteq> IntToPtr)"
| "ignoredUse OtherUser = True"

fun isIntToPtr :: "User \<Rightarrow> bool" where
  "isIntToPtr (CastInstruction castInst) = (castOpcode castInst = IntToPtr)"
| "isIntToPtr (BinaryOperator opcode operand0 operand1 binOp) = False"
| "isIntToPtr OtherUser = False"

fun isConstantInt :: "Operand \<Rightarrow> bool" where
  "isConstantInt (ConstantInt c) = True"
| "isConstantInt Base = False"
| "isConstantInt OtherValue = False"

text \<open>The key under which \<open>analyzeObject\<close> records a use, if it records it.\<close>

fun constantOffset :: "User \<Rightarrow> int option" where
  "constantOffset (BinaryOperator opcode operand0 operand1 binOp) =
     (if opcode = Add then
        (case (if operand0 = Base then operand1 else operand0) of
           ConstantInt c \<Rightarrow> Some (sint c) | Base \<Rightarrow> None | OtherValue \<Rightarrow> None)
      else None)"
| "constantOffset (CastInstruction castInst) = None"
| "constantOffset OtherUser = None"

text \<open>The fields of a structure, first to last, each with its offset and its type.\<close>

fun fields :: "StackObject \<Rightarrow> (int \<times> StackObject) list"
and fields_ptr :: "StackObject option \<Rightarrow> (int \<times> StackObject) list" where
  "fields (StructField offsetFromParent structFieldType structNextField) =
     (offsetFromParent, structFieldType) # fields_ptr structNextField"
| "fields (Object objectPointer) = []"
| "fields (Array arrayElementType arrayMinKnownCount) = []"
| "fields_ptr None = []"
| "fields_ptr (Some obj) = fields obj"

text \<open>
  The child that the loop of \<open>readObject\<close> gets for an entry of the map (\<open>offset0\<close> for
  the null entry, the recursion otherwise), and the fields expected from a map: one for
  each entry with a child, at the entry's offset less \<open>front\<close> (as \<open>sub_int64\<close>
  computes it).
\<close>

definition entryChild :: "StackObject option \<Rightarrow> Value option \<Rightarrow> StackObject option" where
  "entryChild offset0 second =
     (case second of
        None \<Rightarrow> offset0
      | Some inst \<Rightarrow> (case readObject inst of Inl e \<Rightarrow> None | Inr child \<Rightarrow> child))"

definition survivingFields ::
  "int \<Rightarrow> StackObject option \<Rightarrow> OffsetMap \<Rightarrow> (int \<times> StackObject) list" where
  "survivingFields front offset0 entries =
     concat (map (\<lambda>(first, second).
        case entryChild offset0 second of
          None \<Rightarrow> []
        | Some child \<Rightarrow> [(sub_int64 first front, child)]) entries)"

text \<open>
  For the examples: an \<open>inttoptr\<close> cast whose only user is a load of the type printed
  as \<open>t\<close>, and a value whose only use is such a cast.
\<close>

definition loadedAs :: "string \<Rightarrow> CastInst" where
  "loadedAs t = \<lparr>castOpcode = IntToPtr, castUsers = [LoadInst (Type t)]\<rparr>"

definition pointerTo :: "string \<Rightarrow> Value" where
  "pointerTo t = Value [CastInstruction (loadedAs t)]"

section \<open>Lemmas on the offset map and on analyzeObject\<close>

lemma set_map_insert_subset: "set (map_insert k v m) \<subseteq> insert (k, v) (set m)"
  by (induction m) (auto split: if_splits)

lemma set_map_insert_superset: "set m \<subseteq> set (map_insert k v m)"
  by (induction m) auto

lemma key_map_insert: "k \<in> fst ` set (map_insert k v m)"
  by (induction m) force+

lemma keys_map_insert: "fst ` set (map_insert k v m) = insert k (fst ` set m)"
proof
  show "fst ` set (map_insert k v m) \<subseteq> insert k (fst ` set m)"
    using set_map_insert_subset [of k v m] by force
  show "insert k (fst ` set m) \<subseteq> fst ` set (map_insert k v m)"
    using set_map_insert_superset [of m k v] key_map_insert [of k v m] by force
qed

lemma sorted_map_insert:
  "sorted_wrt (<) (map fst m) \<Longrightarrow> sorted_wrt (<) (map fst (map_insert k v m))"
proof (induction m)
  case Nil
  then show ?case by simp
next
  case (Cons e m)
  have "fst ` set (map_insert k v m) = insert k (fst ` set m)"
    by (rule keys_map_insert)
  with Cons show ?case
    by (cases e) (auto simp: image_iff)
qed

lemma map_insert_present:
  "sorted_wrt (<) (map fst m) \<Longrightarrow> k \<in> fst ` set m \<Longrightarrow> map_insert k v m = m"
proof (induction m)
  case Nil
  then show ?case by simp
next
  case (Cons e m)
  obtain k0 v0 where e: "e = (k0, v0)" by (cases e)
  from Cons.prems e have lt: "\<forall>x\<in>set m. k0 < fst x" and sm: "sorted_wrt (<) (map fst m)"
    by simp_all
  show ?case
  proof (cases "k = k0")
    case True
    with e show ?thesis by simp
  next
    case False
    with Cons.prems(2) e have km: "k \<in> fst ` set m" by auto
    with lt have "k0 < k" by auto
    with Cons.IH [OF sm km] e show ?thesis by simp
  qed
qed

lemma map_of_map_insert:
  "sorted_wrt (<) (map fst m) \<Longrightarrow>
   map_of (map_insert k v m) k' =
     (if k' = k \<and> map_of m k = None then Some v else map_of m k')"
proof (induction m)
  case Nil
  then show ?case by simp
next
  case (Cons e m)
  obtain k0 v0 where e: "e = (k0, v0)" by (cases e)
  from Cons.prems e have lt: "\<forall>x\<in>set m. k0 < fst x" by simp
  have none: "k < k0 \<Longrightarrow> map_of m k = None"
  proof (rule ccontr)
    assume "k < k0" "map_of m k \<noteq> None"
    then obtain y where "(k, y) \<in> set m" by (auto dest: map_of_SomeD)
    with lt \<open>k < k0\<close> show False by force
  qed
  from Cons e none show ?case by auto
qed

lemma values_map_insert: "snd ` set (map_insert k v m) \<subseteq> insert v (snd ` set m)"
  using set_map_insert_subset [of k v m] by force

lemma analyzeObject_sorted:
  "analyzeObject us c m s = Some (c', m', s') \<Longrightarrow> sorted_wrt (<) (map fst m)
     \<Longrightarrow> sorted_wrt (<) (map fst m')"
  by (induction us c m s rule: analyzeObject.induct)
     (auto simp: sorted_map_insert split: if_splits Operand.splits)

lemma analyzeObject_keys:
  "analyzeObject us c m s = Some (c', m', s') \<Longrightarrow> fst ` set m \<subseteq> fst ` set m'"
proof (induction us c m s rule: analyzeObject.induct)
  case (2 opcode operand0 operand1 binOp rest castedAs constantOffsets variableOffsetStrides)
  then show ?case
    using keys_map_insert [of _ "Some binOp" constantOffsets]
    by (auto split: if_splits Operand.splits)
qed (auto split: if_splits)

lemma analyzeObject_strides:
  "analyzeObject us c m s = Some (c', m', s') \<Longrightarrow> s' = s"
  by (induction us c m s rule: analyzeObject.induct) (auto split: if_splits Operand.splits)

lemma analyzeObject_no_null:
  "analyzeObject us c m s = Some (c', m', s') \<Longrightarrow> None \<notin> snd ` set m
     \<Longrightarrow> None \<notin> snd ` set m'"
proof (induction us c m s rule: analyzeObject.induct)
  case (2 opcode operand0 operand1 binOp rest castedAs constantOffsets variableOffsetStrides)
  then show ?case
    using values_map_insert [of _ "Some binOp" constantOffsets]
    by (auto split: if_splits Operand.splits)
qed (auto split: if_splits)

lemma analyzeObject_map_of_kept:
  "analyzeObject us c m s = Some (c', m', s') \<Longrightarrow> sorted_wrt (<) (map fst m)
     \<Longrightarrow> map_of m k = Some x \<Longrightarrow> map_of m' k = Some x"
proof (induction us c m s rule: analyzeObject.induct)
  case (2 opcode operand0 operand1 binOp rest castedAs constantOffsets variableOffsetStrides)
  from "2.prems"(1) obtain c64 where
    add: "opcode = Add" and
    right: "(if operand0 = Base then operand1 else operand0) = ConstantInt c64" and
    run: "analyzeObject rest castedAs
            (map_insert (sint c64) (Some binOp) constantOffsets) variableOffsetStrides
          = Some (c', m', s')"
    by (auto split: if_splits Operand.splits)
  have "map_of (map_insert (sint c64) (Some binOp) constantOffsets) k = Some x"
    using "2.prems"(2,3) by (auto simp: map_of_map_insert)
  with "2.IH" [OF add right run sorted_map_insert [OF "2.prems"(2)]] show ?case .
qed (auto split: if_splits)

lemma analyzeObject_map_of_other:
  "analyzeObject us c m s = Some (c', m', s') \<Longrightarrow> sorted_wrt (<) (map fst m)
     \<Longrightarrow> \<forall>u\<in>set us. constantOffset u \<noteq> Some k \<Longrightarrow> map_of m' k = map_of m k"
proof (induction us c m s rule: analyzeObject.induct)
  case (2 opcode operand0 operand1 binOp rest castedAs constantOffsets variableOffsetStrides)
  from "2.prems"(1) obtain c64 where
    add: "opcode = Add" and
    right: "(if operand0 = Base then operand1 else operand0) = ConstantInt c64" and
    run: "analyzeObject rest castedAs
            (map_insert (sint c64) (Some binOp) constantOffsets) variableOffsetStrides
          = Some (c', m', s')"
    by (auto split: if_splits Operand.splits)
  from "2.prems"(3) add right have other: "sint c64 \<noteq> k" and rest: "\<forall>u\<in>set rest. constantOffset u \<noteq> Some k"
    by auto
  have "map_of (map_insert (sint c64) (Some binOp) constantOffsets) k = map_of constantOffsets k"
    using "2.prems"(2) other by (simp add: map_of_map_insert)
  with "2.IH" [OF add right run sorted_map_insert [OF "2.prems"(2)] rest] show ?case by simp
qed (auto split: if_splits)

lemma map_insert_not_Nil: "map_insert k v m \<noteq> []"
  by (cases m) (auto split: if_splits)

lemma analyzeObject_append:
  "analyzeObject (us @ vs) c m s =
     (case analyzeObject us c m s of None \<Rightarrow> None
      | Some (c', m', s') \<Rightarrow> analyzeObject vs c' m' s')"
  by (induction us c m s rule: analyzeObject.induct) (auto split: Operand.splits)

lemma analyzeObject_ignored:
  "ignoredUse u \<Longrightarrow> analyzeObject (us @ u # vs) c m s = analyzeObject (us @ vs) c m s"
  by (cases u) (auto simp: analyzeObject_append split: option.splits)

lemma analyzeObject_not_Add:
  "opcode \<noteq> Add \<Longrightarrow> analyzeObject (us @ BinaryOperator opcode a b v # vs) c m s = None"
  by (auto simp: analyzeObject_append split: option.splits)

lemma analyzeObject_not_constant:
  "\<not> isConstantInt (if a = Base then b else a)
     \<Longrightarrow> analyzeObject (us @ BinaryOperator opcode a b v # vs) c m s = None"
  by (cases "if a = Base then b else a") (auto simp: analyzeObject_append split: option.splits)

lemma analyzeObject_all_ignored:
  "\<forall>u\<in>set us. ignoredUse u \<Longrightarrow> analyzeObject (us @ rest) c m s = analyzeObject rest c m s"
proof (induction us)
  case Nil
  then show ?case by simp
next
  case (Cons u us)
  then show ?case by (cases u) auto
qed

lemma analyzeObject_without_casts:
  "analyzeObject (filter (\<lambda>u. \<not> isIntToPtr u) us) c0 m s =
     map_option (\<lambda>(c', m', s'). (c0, m', s')) (analyzeObject us c m s)"
  by (induction us c m s rule: analyzeObject.induct) (auto split: Operand.splits)

lemma analyzeObject_duplicate:
  assumes r1: "(if a = Base then b else a) = ConstantInt k"
    and r2: "(if a' = Base then b' else a') = ConstantInt k"
    and sorted: "sorted_wrt (<) (map fst m)"
  shows "analyzeObject (us @ BinaryOperator Add a b v # vs @ BinaryOperator Add a' b' v' # ws) c m s
       = analyzeObject (us @ BinaryOperator Add a b v # vs @ ws) c m s"
proof (cases "analyzeObject (us @ BinaryOperator Add a b v # vs) c m s")
  case None
  then show ?thesis
    using analyzeObject_append [of "us @ BinaryOperator Add a b v # vs" _ c m s]
    by simp
next
  case (Some r)
  obtain c1 m1 s1 where r: "r = (c1, m1, s1)" by (cases r)
  obtain c0 m0 s0 where first: "analyzeObject us c m s = Some (c0, m0, s0)"
    and rest: "analyzeObject vs c0 (map_insert (sint k) (Some v) m0) s0 = Some (c1, m1, s1)"
    using Some r r1 by (auto simp: analyzeObject_append split: option.splits)
  have "sorted_wrt (<) (map fst m0)"
    using analyzeObject_sorted [OF first sorted] .
  then have s0: "sorted_wrt (<) (map fst (map_insert (sint k) (Some v) m0))"
    by (rule sorted_map_insert)
  have "sint k \<in> fst ` set (map_insert (sint k) (Some v) m0)"
    by (simp add: keys_map_insert)
  then have "sint k \<in> fst ` set m1"
    using analyzeObject_keys [OF rest] by blast
  moreover have "sorted_wrt (<) (map fst m1)"
    using analyzeObject_sorted [OF rest s0] .
  ultimately have "map_insert (sint k) (Some v') m1 = m1"
    by (simp add: map_insert_present)
  then show ?thesis
    using Some r r2
      analyzeObject_append [of "us @ BinaryOperator Add a b v # vs" "BinaryOperator Add a' b' v' # ws" c m s]
      analyzeObject_append [of "us @ BinaryOperator Add a b v # vs" ws c m s]
    by simp
qed

section \<open>Lemmas on the loop of readObject\<close>

lemma readObject_loop_no_null:
  "None \<notin> snd ` set m \<Longrightarrow> readObject_loop front o1 m = readObject_loop front o2 m"
proof (induction m)
  case Nil
  then show ?case by simp
next
  case (Cons e m)
  from Cons.prems obtain k inst where e: "e = (k, Some inst)"
    by (cases e; cases "snd e") force+
  from Cons have eq: "readObject_loop front o1 m = readObject_loop front o2 m"
    by simp
  show ?case
  proof (cases "readObject inst")
    case (Inl err)
    then show ?thesis by (simp add: e)
  next
    case (Inr child)
    then show ?thesis by (cases child) (simp_all add: e eq)
  qed
qed

lemma readObject_loop_skip:
  "readObject inst = Inr None \<Longrightarrow>
   readObject_loop front offset0 (before @ (first, Some inst) # after)
   = readObject_loop front offset0 (before @ after)"
proof (induction before)
  case Nil
  then show ?case by simp
next
  case (Cons e before)
  obtain k second where e: "e = (k, second)" by (cases e)
  from Cons have eq: "readObject_loop front offset0 (before @ (first, Some inst) # after)
   = readObject_loop front offset0 (before @ after)"
    by simp
  show ?case
  proof (cases "case second of None \<Rightarrow> Inr offset0 | Some i \<Rightarrow> readObject i")
    case (Inl err)
    then show ?thesis by (simp add: e)
  next
    case (Inr child)
    then show ?thesis by (cases child) (simp_all add: e eq)
  qed
qed

lemma readObject_loop_fields:
  "readObject_loop front offset0 m = Inr r \<Longrightarrow> fields_ptr r = survivingFields front offset0 m"
proof (induction m arbitrary: r)
  case Nil
  then show ?case by (simp add: survivingFields_def)
next
  case (Cons e m)
  obtain k second where e: "e = (k, second)" by (cases e)
  show ?case
  proof (cases "case second of None \<Rightarrow> Inr offset0 | Some inst \<Rightarrow> readObject inst")
    case (Inl err)
    with Cons.prems e show ?thesis by simp
  next
    case (Inr child)
    then have ec: "entryChild offset0 second = child"
      by (auto simp: entryChild_def split: option.splits)
    show ?thesis
    proof (cases child)
      case None
      with Cons.prems e Inr have "readObject_loop front offset0 m = Inr r" by simp
      from Cons.IH [OF this] ec None e show ?thesis
        by (simp add: survivingFields_def)
    next
      case (Some c)
      with Cons.prems e Inr obtain nx where
        nx: "readObject_loop front offset0 m = Inr nx" and
        r: "r = Some (StructField (sub_int64 k front) c nx)"
        by (auto split: sum.splits)
      from Cons.IH [OF nx] ec Some e r show ?thesis
        by (simp add: survivingFields_def)
    qed
  qed
qed

lemma readObject_loop_struct:
  "readObject_loop front offset0 m = Inr (Some s) \<Longrightarrow> \<exists>off ft nx. s = StructField off ft nx"
  by (induction m) (auto split: sum.splits option.splits)

lemma sub_int64_fits:
  "- (2 ^ 63) \<le> a - b \<Longrightarrow> a - b < 2 ^ 63 \<Longrightarrow> sub_int64 a b = a - b"
  unfolding sub_int64_def sint_sbintrunc' by (simp add: signed_take_bit_int_eq_self)

lemma survivingFields_sorted:
  "sorted_wrt (<) (map fst m) \<Longrightarrow> \<forall>x\<in>set m. front \<le> fst x \<and> fst x - front < 2 ^ 63
     \<Longrightarrow> sorted_wrt (<) (map fst (survivingFields front offset0 m))"
proof (induction m)
  case Nil
  then show ?case by (simp add: survivingFields_def)
next
  case (Cons e m)
  obtain k second where e: "e = (k, second)" by (cases e)
  have fits: "\<forall>x\<in>set (e # m). sub_int64 (fst x) front = fst x - front"
    using Cons.prems(2) by (auto intro!: sub_int64_fits)
  have keys: "\<forall>f\<in>set (survivingFields front offset0 m). \<exists>x\<in>set m. fst f = fst x - front"
    using fits by (force simp: survivingFields_def split: option.splits)
  from Cons e have "\<forall>x\<in>set m. k < fst x"
    and "sorted_wrt (<) (map fst (survivingFields front offset0 m))"
    by simp_all
  with keys e fits show ?case
    by (cases "entryChild offset0 second") (fastforce simp: survivingFields_def)+
qed

lemma survivingFields_nonneg:
  "\<forall>x\<in>set m. front \<le> fst x \<and> fst x - front < 2 ^ 63
     \<Longrightarrow> \<forall>f\<in>set (survivingFields front offset0 m). 0 \<le> fst f"
proof -
  assume ok: "\<forall>x\<in>set m. front \<le> fst x \<and> fst x - front < 2 ^ 63"
  then have "\<forall>x\<in>set m. sub_int64 (fst x) front = fst x - front"
    by (auto intro!: sub_int64_fits)
  with ok show ?thesis
    by (force simp: survivingFields_def split: option.splits)
qed

lemma sorted_hd_Min:
  "sorted_wrt (<) (map fst m) \<Longrightarrow> m \<noteq> [] \<Longrightarrow> Min (fst ` set m) = fst (hd m)"
  by (cases m) (auto intro!: Min_eqI simp: less_imp_le)

text \<open>
  What \<open>readObject\<close> returns for a base: a structure whose fields are the entries of
  the map that have a child, in the order of the map; and where no offset less the least
  one leaves the range of \<open>int64_t\<close>, the offsets of the fields are strictly ascending
  and not negative.
\<close>

lemma readObject_fields_of_map:
  assumes "readObject base = Inr (Some s)"
  shows "\<exists>castedAs constantOffsets strides.
      analyzeObject (users base) None [] [] = Some (castedAs, constantOffsets, strides) \<and>
      (let offset0 = map_option Object castedAs;
           entries = (if castedAs = None then constantOffsets
                    else map_insert 0 None constantOffsets);
           front = Min (fst ` set entries)
       in entries \<noteq> [] \<and>
          (\<exists>off ft nx. s = StructField off ft nx) \<and>
          fields s = survivingFields front offset0 entries \<and>
          ((\<forall>x\<in>set entries. fst x - front < 2 ^ 63) \<longrightarrow>
             sorted_wrt (<) (map fst (fields s)) \<and> (\<forall>f\<in>set (fields s). 0 \<le> fst f)))"
proof -
  from assms obtain castedAs constantOffsets strides where
    run: "analyzeObject (users base) None [] [] = Some (castedAs, constantOffsets, strides)"
    by (auto simp: readObject.simps [of base] split: option.splits)
  let ?offset0 = "map_option Object castedAs"
  let ?entries = "if castedAs = None then constantOffsets else map_insert 0 None constantOffsets"
  let ?front = "fst (hd ?entries)"
  have o0: "(case castedAs of None \<Rightarrow> None | Some c \<Rightarrow> Some (Object c)) = ?offset0"
    by (simp split: option.splits)
  from assms run have nonempty: "?entries \<noteq> []"
    and loop: "readObject_loop ?front ?offset0 ?entries = Inr (Some s)"
    using map_insert_not_Nil [of 0 None constantOffsets]
    by (auto simp: readObject.simps [of base] Let_def split: if_splits)
  have "sorted_wrt (<) (map fst constantOffsets)"
    using analyzeObject_sorted [OF run] by simp
  then have sorted: "sorted_wrt (<) (map fst ?entries)"
    by (simp add: sorted_map_insert)
  have min: "Min (fst ` set ?entries) = ?front"
    using sorted_hd_Min [OF sorted nonempty] .
  have least: "\<forall>x\<in>set ?entries. ?front \<le> fst x"
    unfolding min [symmetric] by (intro ballI Min_le) auto
  have f: "fields s = survivingFields ?front ?offset0 ?entries"
    using readObject_loop_fields [OF loop] by simp
  have good: "(\<forall>x\<in>set ?entries. fst x - Min (fst ` set ?entries) < 2 ^ 63) \<longrightarrow>
      sorted_wrt (<) (map fst (fields s)) \<and> (\<forall>f\<in>set (fields s). 0 \<le> fst f)"
  proof
    assume "\<forall>x\<in>set ?entries. fst x - Min (fst ` set ?entries) < 2 ^ 63"
    with least min have ok: "\<forall>x\<in>set ?entries. ?front \<le> fst x \<and> fst x - ?front < 2 ^ 63"
      by simp
    show "sorted_wrt (<) (map fst (fields s)) \<and> (\<forall>f\<in>set (fields s). 0 \<le> fst f)"
      unfolding f
      using survivingFields_sorted [OF sorted ok] survivingFields_nonneg [OF ok] by simp
  qed
  have struct: "\<exists>off ft nx. s = StructField off ft nx"
    using readObject_loop_struct [OF loop] .
  have f': "fields s = survivingFields (Min (fst ` set ?entries)) ?offset0 ?entries"
    using f min by simp
  show ?thesis
    unfolding Let_def
    by (rule exI [of _ castedAs], rule exI [of _ constantOffsets], rule exI [of _ strides])
       (intro conjI run nonempty struct f' good)
qed

section \<open>The builder on a single pointer cast\<close>

text \<open>
  C1. A base value whose only recognized use is one cast to a pointer, loaded once as type
  T, is claimed to give a bare Scalar node and the report \<open>(int8)\<close> for T = int8. It
  does not: with a cast present \<open>readObject\<close> always puts the entry \<open>{0, nullptr}\<close> into
  the map, so the map is never empty and the Scalar comes back as the only field of a
  structure. For the base whose single use is an \<open>inttoptr\<close> loaded as int8, the result
  is not the bare Scalar and the report is not \<open>(int8)\<close>.
\<close>

theorem single_cast_bare_scalar_counterexample:
  "readObject (Value [CastInstruction (loadedAs ''int8'')])
     \<noteq> Inr (Some (Object (loadedAs ''int8''))) \<and>
   runOnFunction ''f'' (Some (Value [CastInstruction (loadedAs ''int8'')]))
     \<noteq> Inr (''f: (int8)'' @ [CHR 0x0A]) \<and>
   print (simplifyTrivialStructures (StructField 0 (Object (loadedAs ''int8'')) None))
     \<noteq> Inr ''(int8)''"
  by (simp add: readObject.simps sub_int64_def runOnFunction_def dump_def getPointerCastTypes_def
      signed_decimal_def loadedAs_def)

text \<open>
  C1, as amended. For a base value whose uses are one \<open>inttoptr\<close> cast, through which
  exactly the type T is loaded or stored, and otherwise only uses that the builder passes
  over, the builder returns a structure with a single field at offset 0 whose type is the
  Scalar of that cast; the normalizer leaves it as it is, and the report of the function
  is \<open>{0: (T)}\<close>.
\<close>

theorem single_cast_is_wrapped:
  assumes "castOpcode c = IntToPtr"
    and "getPointerCastTypes c = [T]"
    and "\<forall>u\<in>set us \<union> set vs. ignoredUse u"
  shows "readObject (Value (us @ CastInstruction c # vs))
           = Inr (Some (StructField 0 (Object c) None)) \<and>
         runOnFunction name (Some (Value (us @ CastInstruction c # vs)))
           = Inr (name @ '': {0: ('' @ printType T @ '')}'' @ [CHR 0x0A])"
proof -
  have "analyzeObject vs (Some c) [] [] = Some (Some c, [], [])"
    using analyzeObject_all_ignored [of vs "[]" "Some c" "[]" "[]"] assms(3) by simp
  then have "analyzeObject (us @ CastInstruction c # vs) None [] [] = Some (Some c, [], [])"
    using analyzeObject_all_ignored [of us "CastInstruction c # vs" None "[]" "[]"] assms(1,3)
    by simp
  then have r: "readObject (Value (us @ CastInstruction c # vs))
           = Inr (Some (StructField 0 (Object c) None))"
    by (simp add: readObject.simps [of "Value (us @ CastInstruction c # vs)"] sub_int64_def)
  then show ?thesis
    using assms(2) by (simp add: runOnFunction_def dump_def signed_decimal_def)
qed

text \<open>
  The amended C1 at the cast loaded as int8, after one use that is passed over: the
  report is \<open>{0: (int8)}\<close>.
\<close>

theorem single_cast_is_wrapped_witness:
  "castOpcode (loadedAs ''int8'') = IntToPtr \<and>
   getPointerCastTypes (loadedAs ''int8'') = [Type ''int8''] \<and>
   ignoredUse OtherUser \<and>
   readObject (Value ([OtherUser] @ CastInstruction (loadedAs ''int8'') # []))
     = Inr (Some (StructField 0 (Object (loadedAs ''int8'')) None)) \<and>
   runOnFunction ''f'' (Some (Value ([OtherUser] @ CastInstruction (loadedAs ''int8'') # [])))
     = Inr (''f: {0: (int8)}'' @ [CHR 0x0A])"
  using single_cast_is_wrapped
    [of "loadedAs ''int8''" "Type ''int8''" "[OtherUser]" "[]" "''f''"]
  by (simp add: getPointerCastTypes_def loadedAs_def)

section \<open>The whole pass on two constant offsets\<close>

text \<open>
  C2. For the base value \<open>sp\<close> whose uses are \<open>sp+0\<close> and \<open>sp+4\<close>, each cast to a
  pointer and loaded as int32, the builder gives a structure of two fields, each a
  one-field structure around the Scalar; the normalizer removes the two inner structures;
  the text printed is \<open>{0: (int32), 4: (int32)}\<close>, and this is what the pass writes for
  the function, after its name.
\<close>

theorem two_int32_fields_report:
  "readObject (Value
      [BinaryOperator Add Base (ConstantInt 0) (pointerTo ''int32''),
       BinaryOperator Add Base (ConstantInt 4) (pointerTo ''int32'')])
     = Inr (Some (StructField 0 (StructField 0 (Object (loadedAs ''int32'')) None)
         (Some (StructField 4 (StructField 0 (Object (loadedAs ''int32'')) None) None)))) \<and>
   simplifyTrivialStructures
      (StructField 0 (StructField 0 (Object (loadedAs ''int32'')) None)
         (Some (StructField 4 (StructField 0 (Object (loadedAs ''int32'')) None) None)))
     = StructField 0 (Object (loadedAs ''int32''))
         (Some (StructField 4 (Object (loadedAs ''int32'')) None)) \<and>
   print (StructField 0 (Object (loadedAs ''int32''))
         (Some (StructField 4 (Object (loadedAs ''int32'')) None)))
     = Inr ''{0: (int32), 4: (int32)}'' \<and>
   runOnFunction ''f'' (Some (Value
      [BinaryOperator Add Base (ConstantInt 0) (pointerTo ''int32''),
       BinaryOperator Add Base (ConstantInt 4) (pointerTo ''int32'')]))
     = Inr (''f: {0: (int32), 4: (int32)}'' @ [CHR 0x0A])"
  by (simp add: readObject.simps sub_int64_def runOnFunction_def dump_def getPointerCastTypes_def
      signed_decimal_def loadedAs_def pointerTo_def)

section \<open>The normalizer\<close>



text \<open>
  C4. A second pass of the normalizer on the output of a first should change nothing. It
  does with the code as it is: a pass replaces a field type that is a single-field
  structure at offset 0 by the normalized type inside it, and does not test what it has
  put there. For a load through \<open>(sp+8)+8\<close> the builder returns three structures around
  the Scalar; one pass leaves two of them, \<open>{0: {0: (int32)}}\<close>, which is the pattern the
  function removes; a second pass leaves one, and the texts printed differ.
\<close>

theorem simplify_second_pass_changes:
  "readObject (Value [BinaryOperator Add Base (ConstantInt 8)
      (Value [BinaryOperator Add Base (ConstantInt 8) (pointerTo ''int32'')])])
   = Inr (Some (StructField 0 (StructField 0
         (StructField 0 (Object (loadedAs ''int32'')) None) None) None)) \<and>
   simplifyTrivialStructures
      (StructField 0 (StructField 0
         (StructField 0 (Object (loadedAs ''int32'')) None) None) None)
   = StructField 0 (StructField 0 (Object (loadedAs ''int32'')) None) None \<and>
   simplifyTrivialStructures
      (StructField 0 (StructField 0 (Object (loadedAs ''int32'')) None) None)
   = StructField 0 (Object (loadedAs ''int32'')) None \<and>
   print (StructField 0 (StructField 0 (Object (loadedAs ''int32'')) None) None)
   = Inr ''{0: {0: (int32)}}'' \<and>
   print (StructField 0 (Object (loadedAs ''int32'')) None) = Inr ''{0: (int32)}'' \<and>
   print (simplifyTrivialStructures (simplifyTrivialStructures
      (StructField 0 (StructField 0
         (StructField 0 (Object (loadedAs ''int32'')) None) None) None)))
   \<noteq> print (simplifyTrivialStructures
      (StructField 0 (StructField 0
         (StructField 0 (Object (loadedAs ''int32'')) None) None) None))"
  by (simp add: readObject.simps sub_int64_def getPointerCastTypes_def signed_decimal_def
      loadedAs_def pointerTo_def)

section \<open>How the builder sorts the uses of a base value\<close>

text \<open>
  C5. Of two additions of the same constant, the one visited later is claimed to replace
  the earlier one in the map of constant offsets. It does not: \<open>std::map::insert\<close>
  keeps the entry that is there. With \<open>sp+4\<close> loaded as int32 visited first and another
  \<open>sp+4\<close> loaded as int8 visited second, the map holds the first, and the result is that
  of the first alone, not that of the second alone.
\<close>

theorem duplicate_offset_last_wins_counterexample:
  "analyzeObject
      [BinaryOperator Add Base (ConstantInt 4) (pointerTo ''int32''),
       BinaryOperator Add Base (ConstantInt 4) (pointerTo ''int8'')] None [] []
     \<noteq> Some (None, [(4, Some (pointerTo ''int8''))], []) \<and>
   readObject (Value
      [BinaryOperator Add Base (ConstantInt 4) (pointerTo ''int32''),
       BinaryOperator Add Base (ConstantInt 4) (pointerTo ''int8'')])
     \<noteq> readObject (Value [BinaryOperator Add Base (ConstantInt 4) (pointerTo ''int8'')]) \<and>
   readObject (Value
      [BinaryOperator Add Base (ConstantInt 4) (pointerTo ''int32''),
       BinaryOperator Add Base (ConstantInt 4) (pointerTo ''int8'')])
     = Inr (Some (StructField 0 (StructField 0 (Object (loadedAs ''int32'')) None) None))"
  by (simp add: readObject.simps sub_int64_def loadedAs_def pointerTo_def)

text \<open>
  C5, as amended. Of two additions of the same constant, the one visited earlier stays in
  the map of constant offsets (first write wins): the later one changes nothing in the
  result of the builder, and where no use before the earlier one has that offset, the map
  holds the earlier instruction under it, so the field built for the offset comes from
  the first instruction seen.
\<close>

theorem duplicate_offset_first_wins:
  assumes "(if a = Base then b else a) = ConstantInt k"
    and "(if a' = Base then b' else a') = ConstantInt k"
  shows "readObject (Value (us @ BinaryOperator Add a b v # vs @ BinaryOperator Add a' b' v' # ws))
         = readObject (Value (us @ BinaryOperator Add a b v # vs @ ws)) \<and>
         (\<forall>c m s.
            analyzeObject (us @ BinaryOperator Add a b v # vs @ BinaryOperator Add a' b' v' # ws)
              None [] [] = Some (c, m, s) \<longrightarrow>
            (\<forall>u\<in>set us. constantOffset u \<noteq> Some (sint k)) \<longrightarrow>
            map_of m (sint k) = Some (Some v))"
proof (intro conjI allI impI)
  show "readObject (Value (us @ BinaryOperator Add a b v # vs @ BinaryOperator Add a' b' v' # ws))
         = readObject (Value (us @ BinaryOperator Add a b v # vs @ ws))"
    using analyzeObject_duplicate [OF assms, of "[]" us v vs v' ws None "[]"]
    by (simp add: readObject.simps [of "Value (us @ BinaryOperator Add a b v # vs @ BinaryOperator Add a' b' v' # ws)"]
        readObject.simps [of "Value (us @ BinaryOperator Add a b v # vs @ ws)"])
next
  fix c m s
  let ?tail = "vs @ BinaryOperator Add a' b' v' # ws"
  assume run: "analyzeObject (us @ BinaryOperator Add a b v # ?tail) None [] [] = Some (c, m, s)"
    and first: "\<forall>u\<in>set us. constantOffset u \<noteq> Some (sint k)"
  obtain c0 m0 s0 where before: "analyzeObject us None [] [] = Some (c0, m0, s0)"
    and after: "analyzeObject ?tail c0 (map_insert (sint k) (Some v) m0) s0 = Some (c, m, s)"
    using run assms(1) by (auto simp: analyzeObject_append split: option.splits)
  have sorted0: "sorted_wrt (<) (map fst m0)"
    using analyzeObject_sorted [OF before] by simp
  have "map_of m0 (sint k) = None"
    using analyzeObject_map_of_other [OF before _ first] by simp
  then have "map_of (map_insert (sint k) (Some v) m0) (sint k) = Some (Some v)"
    using sorted0 by (simp add: map_of_map_insert)
  then show "map_of m (sint k) = Some (Some v)"
    using analyzeObject_map_of_kept [OF after sorted_map_insert [OF sorted0]] by simp
qed

text \<open>
  The amended C5 at the two additions of 4 above: the result with both is the result
  with the first alone.
\<close>

theorem duplicate_offset_first_wins_witness:
  "readObject (Value ([] @ BinaryOperator Add Base (ConstantInt 4) (pointerTo ''int32'')
      # [] @ BinaryOperator Add Base (ConstantInt 4) (pointerTo ''int8'') # []))
     = readObject (Value ([] @ BinaryOperator Add Base (ConstantInt 4) (pointerTo ''int32'')
      # [] @ [])) \<and>
   analyzeObject ([] @ BinaryOperator Add Base (ConstantInt 4) (pointerTo ''int32'')
      # [] @ BinaryOperator Add Base (ConstantInt 4) (pointerTo ''int8'') # []) None [] []
     = Some (None, [(4, Some (pointerTo ''int32''))], []) \<and>
   map_of [(4, Some (pointerTo ''int32''))] (sint (4 :: 64 word))
     = Some (Some (pointerTo ''int32''))"
  using duplicate_offset_first_wins
    [of Base "ConstantInt 4" 4 Base "ConstantInt 4" "[]" "pointerTo ''int32''" "[]"
        "pointerTo ''int8''" "[]"]
  by simp

text \<open>
  C6. A use that is neither an addition nor a pointer cast, a subtraction for one, is
  claimed to be ignored. A subtraction is not: \<open>analyzeObject\<close> returns false at any
  \<open>BinaryOperator\<close> whose opcode is not \<open>Add\<close>. A base with \<open>sp-4\<close> and a cast loaded as
  int32 is unrecoverable, while the cast alone gives a structure.
\<close>

theorem other_use_ignored_counterexample:
  "readObject (Value
      [BinaryOperator Sub Base (ConstantInt 4) (Value []), CastInstruction (loadedAs ''int32'')])
     = Inr None \<and>
   readObject (Value [CastInstruction (loadedAs ''int32'')])
     = Inr (Some (StructField 0 (Object (loadedAs ''int32'')) None)) \<and>
   readObject (Value
      [BinaryOperator Sub Base (ConstantInt 4) (Value []), CastInstruction (loadedAs ''int32'')])
     \<noteq> readObject (Value [CastInstruction (loadedAs ''int32'')])"
  by (simp add: readObject.simps sub_int64_def loadedAs_def)

text \<open>
  C6, as amended. A use that is no binary operator and no \<open>inttoptr\<close> cast (a comparison,
  a call, a cast of another kind) is ignored: the result of the builder is the result
  with that use absent. A binary operator other than an addition (a subtraction, a
  multiplication) is not ignored: it makes the base unrecoverable.
\<close>

theorem other_use_ignored:
  "(ignoredUse u \<longrightarrow> readObject (Value (us @ u # vs)) = readObject (Value (us @ vs))) \<and>
   (opcode \<noteq> Add \<longrightarrow>
      readObject (Value (us @ BinaryOperator opcode a b v # vs)) = Inr None)"
  by (simp add: readObject.simps [of "Value (us @ u # vs)"] readObject.simps [of "Value (us @ vs)"]
      readObject.simps [of "Value (us @ BinaryOperator opcode a b v # vs)"]
      analyzeObject_ignored analyzeObject_not_Add)

text \<open>
  The amended C6 at a base with a cast loaded as int32: another use before it changes
  nothing, a subtraction before it makes the base unrecoverable.
\<close>

theorem other_use_ignored_witness:
  "ignoredUse OtherUser \<and>
   readObject (Value ([] @ OtherUser # [CastInstruction (loadedAs ''int32'')]))
     = readObject (Value ([] @ [CastInstruction (loadedAs ''int32'')])) \<and>
   Sub \<noteq> Add \<and>
   readObject (Value ([] @ BinaryOperator Sub Base (ConstantInt 4) (Value [])
      # [CastInstruction (loadedAs ''int32'')])) = Inr None"
  using other_use_ignored
    [of OtherUser "[]" "[CastInstruction (loadedAs ''int32'')]" Sub Base "ConstantInt 4" "Value []"]
  by simp

text \<open>
  C7. If a use of the base value is an addition whose other operand (the operand that
  \<open>analyzeObject\<close> takes for the offset) is no constant integer, the builder returns
  "unrecoverable" (the null pointer) for that base, whatever its other uses are.
\<close>

theorem nonconstant_offset_unrecoverable:
  assumes "BinaryOperator Add a b v \<in> set (users base)"
    and "\<not> isConstantInt (if a = Base then b else a)"
  shows "readObject base = Inr None"
proof -
  from assms(1) obtain us vs where "users base = us @ BinaryOperator Add a b v # vs"
    by (auto dest: split_list)
  with assms(2) show ?thesis
    by (simp add: readObject.simps [of base] analyzeObject_not_constant)
qed

text \<open>
  C7 at a base with \<open>sp+4\<close> loaded as int32, a cast loaded as int8, and \<open>sp+v\<close> for a
  value \<open>v\<close> that is no constant.
\<close>

theorem nonconstant_offset_unrecoverable_witness:
  "BinaryOperator Add Base OtherValue (Value [])
     \<in> set (users (Value
        [BinaryOperator Add Base (ConstantInt 4) (pointerTo ''int32''),
         CastInstruction (loadedAs ''int8''),
         BinaryOperator Add Base OtherValue (Value [])])) \<and>
   \<not> isConstantInt (if Base = Base then OtherValue else Base) \<and>
   readObject (Value
        [BinaryOperator Add Base (ConstantInt 4) (pointerTo ''int32''),
         CastInstruction (loadedAs ''int8''),
         BinaryOperator Add Base OtherValue (Value [])]) = Inr None"
  using nonconstant_offset_unrecoverable
    [of Base OtherValue "Value []"
        "Value [BinaryOperator Add Base (ConstantInt 4) (pointerTo ''int32''),
                CastInstruction (loadedAs ''int8''),
                BinaryOperator Add Base OtherValue (Value [])]"]
  by simp

text \<open>
  C8. Every Scalar node of the builder is claimed to have a type, so that the assertion
  of \<open>print\<close> cannot fail on a tree of the builder. The builder makes a Scalar for any
  \<open>inttoptr\<close> cast and never looks at the users of the cast. For a base whose only use
  is an \<open>inttoptr\<close> whose only user is neither a load nor a store, the builder returns a
  structure around a Scalar with no type, and printing it fails the assertion.
\<close>

theorem scalar_without_types_assertion:
  "readObject (Value
      [CastInstruction \<lparr>castOpcode = IntToPtr, castUsers = [OtherInstruction]\<rparr>])
     = Inr (Some (StructField 0
         (Object \<lparr>castOpcode = IntToPtr, castUsers = [OtherInstruction]\<rparr>) None)) \<and>
   getPointerCastTypes \<lparr>castOpcode = IntToPtr, castUsers = [OtherInstruction]\<rparr> = [] \<and>
   print (Object \<lparr>castOpcode = IntToPtr, castUsers = [OtherInstruction]\<rparr>)
     = Inl AssertionFailed \<and>
   runOnFunction ''f'' (Some (Value
      [CastInstruction \<lparr>castOpcode = IntToPtr, castUsers = [OtherInstruction]\<rparr>]))
     = Inl AssertionFailed"
  by (simp add: readObject.simps sub_int64_def runOnFunction_def dump_def getPointerCastTypes_def)

section \<open>The fields of a structure of the builder\<close>

text \<open>
  C9. The fields of a structure of the builder should be in ascending order of offset,
  each offset taken from the least offset of its map and so not negative. The subtraction
  \<open>pair.first - front\<close> is not checked, and the assertion on the signs lets the least
  key \<open>INT64_MIN\<close> pass when the greatest is 0. For a base with \<open>sp + INT64_MIN\<close> loaded
  as int32 and a cast of its own loaded as int8, the map has the keys \<open>INT64_MIN\<close> and 0,
  the assertion holds, and the field of the cast gets the offset \<open>0 - INT64_MIN\<close>, which
  wraps around to \<open>INT64_MIN\<close>: the structure returned has the offsets 0 and \<open>-2^63\<close>,
  neither ascending nor without a negative one, and the pass prints them so.
\<close>

theorem readObject_offset_wraps:
  "readObject (Value
      [BinaryOperator Add Base (ConstantInt (- 9223372036854775808)) (pointerTo ''int32''),
       CastInstruction (loadedAs ''int8'')])
     = Inr (Some (StructField 0 (StructField 0 (Object (loadedAs ''int32'')) None)
         (Some (StructField (- 9223372036854775808) (Object (loadedAs ''int8'')) None)))) \<and>
   map fst (fields (StructField 0 (StructField 0 (Object (loadedAs ''int32'')) None)
         (Some (StructField (- 9223372036854775808) (Object (loadedAs ''int8'')) None))))
     = [0, - 9223372036854775808] \<and>
   \<not> sorted_wrt (<) (map fst (fields
      (StructField 0 (StructField 0 (Object (loadedAs ''int32'')) None)
         (Some (StructField (- 9223372036854775808) (Object (loadedAs ''int8'')) None))))) \<and>
   runOnFunction ''f'' (Some (Value
      [BinaryOperator Add Base (ConstantInt (- 9223372036854775808)) (pointerTo ''int32''),
       CastInstruction (loadedAs ''int8'')]))
     = Inr (''f: {0: (int32), -9223372036854775808: (int8)}'' @ [CHR 0x0A])"
  by (simp add: readObject.simps sub_int64_def runOnFunction_def dump_def
      getPointerCastTypes_def signed_decimal_def loadedAs_def pointerTo_def)

text \<open>
  C10. When a base value has an addition of the constant 0 among its uses, the entry
  \<open>{0, nullptr}\<close> that stands for its pointer cast is not put into the map (the map
  keeps the entry of the addition), the field at offset 0 comes from the addition, and
  the cast leaves no trace: the result is the result for the same uses without any
  \<open>inttoptr\<close> cast.
\<close>

theorem explicit_offset0_drops_cast:
  assumes "BinaryOperator Add a b v \<in> set us"
    and "(if a = Base then b else a) = ConstantInt 0"
  shows "readObject (Value us) = readObject (Value (filter (\<lambda>u. \<not> isIntToPtr u) us)) \<and>
         (\<forall>c m s. analyzeObject us None [] [] = Some (c, m, s) \<longrightarrow>
            map_insert 0 None m = m \<and> (\<exists>inst. map_of m 0 = Some (Some inst)))"
proof -
  have facts: "map_insert 0 None m = m \<and> (\<exists>inst. map_of m 0 = Some (Some inst)) \<and> None \<notin> snd ` set m \<and> s = [] \<and> m \<noteq> []"
    if run: "analyzeObject us None [] [] = Some (c, m, s)" for c m s
  proof -
    from assms(1) obtain xs ys where split: "us = xs @ BinaryOperator Add a b v # ys"
      by (auto dest: split_list)
    from run split assms(2) obtain c0 m0 s0 where
      before: "analyzeObject xs None [] [] = Some (c0, m0, s0)" and
      after: "analyzeObject ys c0 (map_insert 0 (Some v) m0) s0 = Some (c, m, s)"
      by (auto simp: analyzeObject_append split: option.splits)
    have sorted0: "sorted_wrt (<) (map fst m0)"
      using analyzeObject_sorted [OF before] by simp
    have sorted: "sorted_wrt (<) (map fst m)"
      using analyzeObject_sorted [OF run] by simp
    have "0 \<in> fst ` set (map_insert 0 (Some v) m0)"
      by (simp add: keys_map_insert)
    then have key: "0 \<in> fst ` set m"
      using analyzeObject_keys [OF after] by blast
    have nonull: "None \<notin> snd ` set m"
      using analyzeObject_no_null [OF run] by simp
    from key obtain e where "(0, e) \<in> set m" by force
    moreover from this nonull obtain inst where "e = Some inst" by (cases e) force+
    moreover have "distinct (map fst m)"
      using sorted by (simp add: strict_sorted_iff)
    ultimately have "map_of m 0 = Some (Some inst)" by simp
    then show ?thesis
      using map_insert_present [OF sorted key] nonull analyzeObject_strides [OF run] key
      by auto
  qed
  have "readObject (Value us) = readObject (Value (filter (\<lambda>u. \<not> isIntToPtr u) us))"
  proof (cases "analyzeObject us None [] []")
    case None
    then show ?thesis
      using analyzeObject_without_casts [of us None "[]" "[]" None]
      by (simp add: readObject.simps [of "Value us"]
          readObject.simps [of "Value (filter (\<lambda>u. \<not> isIntToPtr u) us)"])
  next
    case (Some r)
    obtain c m s where r: "r = (c, m, s)" by (cases r)
    from facts [of c m s] Some r have f: "map_insert 0 None m = m" "None \<notin> snd ` set m" "s = []" "m \<noteq> []"
      by simp_all
    have "analyzeObject (filter (\<lambda>u. \<not> isIntToPtr u) us) None [] [] = Some (None, m, s)"
      using analyzeObject_without_casts [of us None "[]" "[]" None] Some r by simp
    then show ?thesis
      using Some r f readObject_loop_no_null [OF f(2), of "fst (hd m)" "map_option Object c" None]
      by (cases c) (simp_all add: Let_def readObject.simps [of "Value us"]
          readObject.simps [of "Value (filter (\<lambda>u. \<not> isIntToPtr u) us)"])
  qed
  with facts show ?thesis by blast
qed

text \<open>
  C10 at a base cast to a pointer and loaded as int8, with \<open>sp+0\<close> loaded as int32: the
  result is that of \<open>sp+0\<close> alone, and int8 is not in it.
\<close>

theorem explicit_offset0_drops_cast_witness:
  "BinaryOperator Add Base (ConstantInt 0) (pointerTo ''int32'')
     \<in> set [CastInstruction (loadedAs ''int8''),
             BinaryOperator Add Base (ConstantInt 0) (pointerTo ''int32'')] \<and>
   readObject (Value
      [CastInstruction (loadedAs ''int8''),
       BinaryOperator Add Base (ConstantInt 0) (pointerTo ''int32'')])
     = readObject (Value [BinaryOperator Add Base (ConstantInt 0) (pointerTo ''int32'')]) \<and>
   readObject (Value
      [CastInstruction (loadedAs ''int8''),
       BinaryOperator Add Base (ConstantInt 0) (pointerTo ''int32'')])
     = Inr (Some (StructField 0 (StructField 0 (Object (loadedAs ''int32'')) None) None)) \<and>
   map_insert 0 None [(0, Some (pointerTo ''int32''))] = [(0, Some (pointerTo ''int32''))]"
proof -
  have r: "readObject (Value [BinaryOperator Add Base (ConstantInt 0) (pointerTo ''int32'')])
     = Inr (Some (StructField 0 (StructField 0 (Object (loadedAs ''int32'')) None) None))"
    by (simp add: readObject.simps sub_int64_def loadedAs_def pointerTo_def)
  from explicit_offset0_drops_cast
    [of Base "ConstantInt 0" "pointerTo ''int32''"
        "[CastInstruction (loadedAs ''int8''),
          BinaryOperator Add Base (ConstantInt 0) (pointerTo ''int32'')]"] r
  show ?thesis
    by (simp add: loadedAs_def)
qed

end
